theory Spec2Isabelle
  imports Complex_Main "HOL-Library.Multiset" "HOL-Library.Product_Lexorder"
    "HOL-Library.Log_Nat"
begin

section \<open>Data model (src/lib/db.ts, the types after the separator)\<close>

text \<open>
  The TypeScript type \<^verbatim>\<open>number\<close> is kept abstract as the type variable \<open>'n\<close>: the
  code only uses \<^verbatim>\<open>0\<close>, \<^verbatim>\<open>+\<close>, unary \<^verbatim>\<open>-\<close>, \<^verbatim>\<open><=\<close> and \<^verbatim>\<open>!==\<close> on balances and
  amounts. Theorems that need no law of arithmetic are stated for every such type;
  theorems that rearrange sums ask for an (ordered) abelian group, which is exact
  arithmetic. \<^verbatim>\<open>!==\<close> is \<open>strict_ne\<close>, written with \<^verbatim>\<open><=\<close>; it is disequality in the
  theorems stated for a partial order, which has no \<^verbatim>\<open>NaN\<close>. The type \<open>double\<close> below
  is the number type of the running program, \<^verbatim>\<open>NaN\<close>, the infinities and rounding
  included; the definitions are evaluated over it where a claim depends on them.

  A \<^verbatim>\<open>Date\<close> is its \<^verbatim>\<open>getTime()\<close> value, an \<open>int\<close> (milliseconds); invalid dates are
  outside the model. Every call of \<^verbatim>\<open>new Date()\<close> is a parameter of the function
  that makes it.

  A row read from a Dexie table always carries its primary key, and the candidate
  built by \<^verbatim>\<open>handleSubmit\<close> carries the temporary id \<open>0\<close>, so the optional field
  \<^verbatim>\<open>id?: number\<close> is a plain \<open>nat\<close> here; \<^verbatim>\<open>delete newEntry.id\<close> followed by
  \<^verbatim>\<open>db.entries.add\<close> is the key generator overwriting the field.

  Field names are those of the source, but \<^verbatim>\<open>id\<close> (\<open>party_id\<close>, \<open>entry_id\<close>), \<^verbatim>\<open>type\<close>
  (\<open>party_type\<close>), \<^verbatim>\<open>note\<close> (\<open>note_text\<close>) and the \<^verbatim>\<open>createdAt\<close> of a party
  (\<open>party_createdAt\<close>), which clash with names Isabelle has taken.
\<close>

datatype PartyType = customer | supplier

datatype Direction = credit | debit

record 'n Party =
  party_id :: nat
  party_type :: PartyType
  name :: string
  phone :: string
  party_createdAt :: int
  updatedAt :: int
  balance :: 'n

record 'n LedgerEntry =
  entry_id :: nat
  partyId :: nat
  direction :: Direction
  amount :: 'n
  date :: int
  note_text :: "string option"
  balanceAfter :: 'n
  createdAt :: int

text \<open>
  \<^verbatim>\<open>AppDB\<close>: the two tables. A table is the list of its rows in primary-key order,
  which is the order in which IndexedDB iterates them. \<open>entries_key\<close> is the key
  generator of \<^verbatim>\<open>'++id'\<close> for the entries table: the key the next \<^verbatim>\<open>add\<close> assigns.
\<close>

record 'n AppDB =
  parties :: "'n Party list"
  entries :: "'n LedgerEntry list"
  entries_key :: nat

datatype error = PartyNotFound

section \<open>The store operations the code calls\<close>

text \<open>
  The write operations of Dexie that the code issues, as values: the array
  \<^verbatim>\<open>updates\<close> of the source is a list of them.
  \<^item> \<open>EntriesUpdate k v\<close>: \<^verbatim>\<open>db.entries.update(k, { balanceAfter: v })\<close>
  \<^item> \<open>EntriesEdit k a d n t\<close>: \<^verbatim>\<open>db.entries.update(k, { amount: a, direction: d, note: n, date: t })\<close>
  \<^item> \<open>EntriesAdd e\<close>: \<^verbatim>\<open>db.entries.add(e)\<close>, \<open>e\<close> without id
  \<^item> \<open>EntriesDelete k\<close>: \<^verbatim>\<open>db.entries.delete(k)\<close>
  \<^item> \<open>EntriesDeleteWhere p\<close>: \<^verbatim>\<open>db.entries.where({ partyId: p }).delete()\<close>
  \<^item> \<open>PartiesUpdate k b t\<close>: \<^verbatim>\<open>db.parties.update(k, { balance: b, updatedAt: t })\<close>
  \<^item> \<open>PartiesDelete k\<close>: \<^verbatim>\<open>db.parties.delete(k)\<close>
\<close>

datatype 'n dbop =
    EntriesUpdate nat 'n
  | EntriesEdit nat 'n Direction string int
  | EntriesAdd "'n LedgerEntry"
  | EntriesDelete nat
  | EntriesDeleteWhere nat
  | PartiesUpdate nat 'n int
  | PartiesDelete nat

definition entriesUpdate :: "nat \<Rightarrow> 'n \<Rightarrow> 'n LedgerEntry list \<Rightarrow> 'n LedgerEntry list" where
  "entriesUpdate k v rows =
     map (\<lambda>r. if entry_id r = k then r\<lparr>balanceAfter := v\<rparr> else r) rows"

definition entriesEdit ::
  "nat \<Rightarrow> 'n \<Rightarrow> Direction \<Rightarrow> string \<Rightarrow> int \<Rightarrow> 'n LedgerEntry list \<Rightarrow> 'n LedgerEntry list" where
  "entriesEdit k a d n t rows =
     map (\<lambda>r. if entry_id r = k
              then r\<lparr>amount := a, direction := d, note_text := Some n, date := t\<rparr>
              else r) rows"

definition partiesUpdate :: "nat \<Rightarrow> 'n \<Rightarrow> int \<Rightarrow> 'n Party list \<Rightarrow> 'n Party list" where
  "partiesUpdate k b t rows =
     map (\<lambda>p. if party_id p = k then p\<lparr>balance := b, updatedAt := t\<rparr> else p) rows"

definition partiesGet :: "'n Party list \<Rightarrow> nat \<Rightarrow> 'n Party option" where
  "partiesGet rows k = find (\<lambda>p. party_id p = k) rows"

fun exec :: "'n dbop \<Rightarrow> 'n AppDB \<Rightarrow> 'n AppDB" where
  "exec (EntriesUpdate k v) db = db\<lparr>entries := entriesUpdate k v (entries db)\<rparr>"
| "exec (EntriesEdit k a d n t) db = db\<lparr>entries := entriesEdit k a d n t (entries db)\<rparr>"
| "exec (EntriesAdd e) db =
     db\<lparr>entries := entries db @ [e\<lparr>entry_id := entries_key db\<rparr>],
        entries_key := Suc (entries_key db)\<rparr>"
| "exec (EntriesDelete k) db = db\<lparr>entries := filter (\<lambda>r. entry_id r \<noteq> k) (entries db)\<rparr>"
| "exec (EntriesDeleteWhere p) db = db\<lparr>entries := filter (\<lambda>r. partyId r \<noteq> p) (entries db)\<rparr>"
| "exec (PartiesUpdate k b t) db = db\<lparr>parties := partiesUpdate k b t (parties db)\<rparr>"
| "exec (PartiesDelete k) db = db\<lparr>parties := filter (\<lambda>p. party_id p \<noteq> k) (parties db)\<rparr>"

text \<open>\<^verbatim>\<open>await Promise.all(updates)\<close>: the operations take effect in the order they
  were issued.\<close>

definition Promise_all :: "'n dbop list \<Rightarrow> 'n AppDB \<Rightarrow> 'n AppDB" where
  "Promise_all updates db = fold exec updates db"

text \<open>\<^verbatim>\<open>db.entries.where({ partyId })\<close>: the rows of that party, in primary-key order.\<close>

definition where_partyId :: "'n LedgerEntry list \<Rightarrow> nat \<Rightarrow> 'n LedgerEntry list" where
  "where_partyId rows pid = filter (\<lambda>r. partyId r = pid) rows"

text \<open>
  \<^verbatim>\<open>Array.prototype.sort(compare)\<close> is a stable sort: \<open>a\<close> comes before \<open>b\<close> when
  \<open>compare a b < 0\<close>, and elements that compare equal keep their order.
\<close>

fun insort_cmp :: "('a \<Rightarrow> 'a \<Rightarrow> int) \<Rightarrow> 'a \<Rightarrow> 'a list \<Rightarrow> 'a list" where
  "insort_cmp c x [] = [x]"
| "insort_cmp c x (y # ys) = (if c x y \<le> 0 then x # y # ys else y # insort_cmp c x ys)"

definition js_sort :: "('a \<Rightarrow> 'a \<Rightarrow> int) \<Rightarrow> 'a list \<Rightarrow> 'a list" where
  "js_sort c xs = foldr (insort_cmp c) xs []"

text \<open>
  \<^verbatim>\<open>a !== b\<close> on numbers. In JavaScript \<^verbatim>\<open>a === b\<close> holds for two numbers exactly when
  \<^verbatim>\<open>a <= b && b <= a\<close> does: both are false as soon as one side is \<^verbatim>\<open>NaN\<close>, and
  both take \<^verbatim>\<open>0\<close> and \<^verbatim>\<open>-0\<close> for equal. So \<^verbatim>\<open>!==\<close> is written with the order of
  the number type, and \<^verbatim>\<open>NaN !== NaN\<close> is true in a type that has a \<^verbatim>\<open>NaN\<close>.
\<close>

definition strict_ne :: "'n::ord \<Rightarrow> 'n \<Rightarrow> bool" where
  "strict_ne a b = (\<not> (a \<le> b \<and> b \<le> a))"

text \<open>\<^verbatim>\<open>x || y\<close> on numbers: \<open>x\<close> unless it is \<open>0\<close>.\<close>

definition js_or :: "int \<Rightarrow> int \<Rightarrow> int" where
  "js_or x y = (if x \<noteq> 0 then x else y)"

text \<open>Dexie's \<^verbatim>\<open>Collection.sortBy('date')\<close>: \<^verbatim>\<open>toArray\<close>, then \<^verbatim>\<open>sort\<close> with the comparison
  of the \<^verbatim>\<open>date\<close> keys.\<close>

definition sortBy_date :: "'n LedgerEntry list \<Rightarrow> 'n LedgerEntry list" where
  "sortBy_date rows =
     js_sort (\<lambda>a b. if date a < date b then - 1 else if date b < date a then 1 else 0) rows"

section \<open>JavaScript numbers\<close>

text \<open>
  The number type of the running program: an IEEE 754 double. A finite double is the
  rational number it stands for (\<open>0\<close> and \<open>-0\<close> are one value: the code never divides,
  and \<^verbatim>\<open><=\<close>, \<^verbatim>\<open>!==\<close> and the sums it stores do not tell them apart). \<open>round_double\<close> rounds a
  rational to the nearest double, ties to the even mantissa of 53 bits, with the
  subnormal range below \<open>2\<close> to the \<open>- 1022\<close> and overflow to an infinity from \<open>2\<close> to the
  \<open>1024\<close> on. \<open>ilog2 a\<close> is the exponent of the leading bit of a positive \<open>a\<close>, found
  from the numbers of bits (\<open>bitlen\<close>) of its numerator and denominator.
\<close>

datatype double = Finite rat | PosInfinity | NegInfinity | NaN

definition pow2 :: "int \<Rightarrow> rat" where
  "pow2 k = (if 0 \<le> k then 2 ^ nat k else 1 / 2 ^ nat (- k))"

definition ilog2 :: "rat \<Rightarrow> int" where
  "ilog2 a =
     (let (p, q) = quotient_of a; k = bitlen p - bitlen q
      in if pow2 k \<le> a then k else k - 1)"

definition round_half_even :: "rat \<Rightarrow> int" where
  "round_half_even s =
     (let f = \<lfloor>s\<rfloor>; r = s - of_int f
      in if r < 1 / 2 then f else if 1 / 2 < r then f + 1
         else if even f then f else f + 1)"

definition round_magnitude :: "rat \<Rightarrow> rat" where
  "round_magnitude a =
     (let e = max (ilog2 a - 52) (- 1074)
      in of_int (round_half_even (a / pow2 e)) * pow2 e)"

definition round_double :: "rat \<Rightarrow> double" where
  "round_double x =
     (if x = 0 then Finite 0
      else let v = round_magnitude \<bar>x\<bar>
           in if pow2 1024 \<le> v then (if 0 < x then PosInfinity else NegInfinity)
              else Finite (if 0 < x then v else - v))"

text \<open>\<^verbatim>\<open>0\<close>, \<^verbatim>\<open>+\<close>, unary \<^verbatim>\<open>-\<close> and \<^verbatim>\<open><=\<close> of JavaScript on doubles.\<close>

instantiation double :: "{zero,plus,uminus,ord}"
begin

definition zero_double :: double where
  "zero_double = Finite 0"

definition plus_double :: "double \<Rightarrow> double \<Rightarrow> double" where
  "plus_double a b =
     (case (a, b) of
        (NaN, _) \<Rightarrow> NaN
      | (_, NaN) \<Rightarrow> NaN
      | (PosInfinity, NegInfinity) \<Rightarrow> NaN
      | (NegInfinity, PosInfinity) \<Rightarrow> NaN
      | (PosInfinity, _) \<Rightarrow> PosInfinity
      | (_, PosInfinity) \<Rightarrow> PosInfinity
      | (NegInfinity, _) \<Rightarrow> NegInfinity
      | (_, NegInfinity) \<Rightarrow> NegInfinity
      | (Finite x, Finite y) \<Rightarrow> round_double (x + y))"

definition uminus_double :: "double \<Rightarrow> double" where
  "uminus_double a =
     (case a of
        Finite x \<Rightarrow> Finite (- x)
      | PosInfinity \<Rightarrow> NegInfinity
      | NegInfinity \<Rightarrow> PosInfinity
      | NaN \<Rightarrow> NaN)"

definition less_eq_double :: "double \<Rightarrow> double \<Rightarrow> bool" where
  "less_eq_double a b =
     (case (a, b) of
        (NaN, _) \<Rightarrow> False
      | (_, NaN) \<Rightarrow> False
      | (NegInfinity, _) \<Rightarrow> True
      | (_, PosInfinity) \<Rightarrow> True
      | (Finite x, Finite y) \<Rightarrow> x \<le> y
      | (PosInfinity, _) \<Rightarrow> False
      | (_, NegInfinity) \<Rightarrow> False)"

definition less_double :: "double \<Rightarrow> double \<Rightarrow> bool" where
  "less_double a b = (a \<le> b \<and> \<not> b \<le> a)"

instance ..

end

section \<open>recalculateBalancesForParty (src/lib/db.ts)\<close>

text \<open>The comparator of line 28.\<close>

definition compare_entries :: "'n LedgerEntry \<Rightarrow> 'n LedgerEntry \<Rightarrow> int" where
  "compare_entries a b = js_or (date a - date b) (createdAt a - createdAt b)"

text \<open>The loop of lines 33 to 39; it returns \<^verbatim>\<open>runningBalance\<close> and \<^verbatim>\<open>updates\<close>.\<close>

fun recalc_loop ::
  "'n::{zero,plus,uminus,ord} \<Rightarrow> 'n dbop list \<Rightarrow> 'n LedgerEntry list \<Rightarrow> 'n \<times> 'n dbop list" where
  "recalc_loop runningBalance updates [] = (runningBalance, updates)"
| "recalc_loop runningBalance updates (entry # rest) =
     (let entryAmount = (if direction entry = credit then amount entry else - amount entry);
          runningBalance' = runningBalance + entryAmount;
          updates' = (if strict_ne (balanceAfter entry) runningBalance'
                      then updates @ [EntriesUpdate (entry_id entry) runningBalance']
                      else updates)
      in recalc_loop runningBalance' updates' rest)"

text \<open>
  The transaction body. The result is the store after the transaction and the
  write operations it issued, in order. \<open>now\<close> is the value of \<^verbatim>\<open>new Date()\<close>.
  The function has no \<^verbatim>\<open>throw\<close>; failures of the store itself are outside the model.
\<close>

definition recalculateBalancesForParty ::
  "'n::{zero,plus,uminus,ord} AppDB \<Rightarrow> nat \<Rightarrow> int \<Rightarrow> 'n AppDB \<times> 'n dbop list" where
  "recalculateBalancesForParty db pid now =
     (let es = js_sort compare_entries (sortBy_date (where_partyId (entries db) pid));
          (runningBalance, updates) = recalc_loop 0 [] es;
          db1 = Promise_all updates db
      in case partiesGet (parties db1) pid of
           Some party \<Rightarrow>
             if strict_ne (balance party) runningBalance then
               (exec (PartiesUpdate pid runningBalance now) db1,
                updates @ [PartiesUpdate pid runningBalance now])
             else if es = [] then
               (exec (PartiesUpdate pid 0 now) db1, updates @ [PartiesUpdate pid 0 now])
             else (db1, updates)
         | None \<Rightarrow> (db1, updates))"

section \<open>AddEditEntryPage.handleSubmit and App.handleConfirmDelete (the application file)\<close>

text \<open>The comparator of line 531; \<^verbatim>\<open>a.createdAt?.getTime() || 0\<close> is \<open>js_or (createdAt a) 0\<close>.\<close>

definition compare_entries_add :: "'n LedgerEntry \<Rightarrow> 'n LedgerEntry \<Rightarrow> int" where
  "compare_entries_add a b =
     js_or (date a - date b) (js_or (createdAt a) 0 - js_or (createdAt b) 0)"

text \<open>
  The loop of lines 536 to 544. It returns \<^verbatim>\<open>runningBalance\<close>, \<^verbatim>\<open>updates\<close> and the
  object \<^verbatim>\<open>newEntry\<close>, whose \<^verbatim>\<open>balanceAfter\<close> the loop assigns when it meets the entry
  with id \<open>0\<close>. (The source tests the id, not the identity of the object; the key
  generator of IndexedDB starts at \<open>1\<close>, so no stored row has id \<open>0\<close>.)
\<close>

fun add_loop ::
  "'n::{zero,plus,uminus,ord} \<Rightarrow> 'n dbop list \<Rightarrow> 'n LedgerEntry \<Rightarrow> 'n LedgerEntry list
     \<Rightarrow> 'n \<times> 'n dbop list \<times> 'n LedgerEntry" where
  "add_loop runningBalance updates newEntry [] = (runningBalance, updates, newEntry)"
| "add_loop runningBalance updates newEntry (entry # rest) =
     (let entryAmount = (if direction entry = credit then amount entry else - amount entry);
          runningBalance' = runningBalance + entryAmount
      in if entry_id entry = 0
         then add_loop runningBalance' updates (newEntry\<lparr>balanceAfter := runningBalance'\<rparr>) rest
         else if strict_ne (balanceAfter entry) runningBalance'
         then add_loop runningBalance'
                (updates @ [EntriesUpdate (entry_id entry) runningBalance']) newEntry rest
         else add_loop runningBalance' updates newEntry rest)"

text \<open>The object \<^verbatim>\<open>newEntry\<close> of lines 520 to 529.\<close>

definition make_newEntry ::
  "nat \<Rightarrow> 'n::zero \<Rightarrow> Direction \<Rightarrow> string \<Rightarrow> int \<Rightarrow> int \<Rightarrow> 'n LedgerEntry" where
  "make_newEntry pid numAmount dir note_str date_val now_created =
     \<lparr>entry_id = 0, partyId = pid, direction = dir, amount = numAmount,
      date = date_val, note_text = Some note_str, balanceAfter = 0,
      createdAt = now_created\<rparr>"

text \<open>
  The transaction of lines 515 to 551. \<open>Inl\<close> is the \<^verbatim>\<open>throw\<close>: Dexie aborts the
  transaction, nothing is written and the promise rejects, so the store stays the
  one the caller had. \<open>now_created\<close> and \<open>now_updated\<close> are the two \<^verbatim>\<open>new Date()\<close>.
\<close>

definition addEntry_transaction ::
  "'n::{zero,plus,uminus,ord} AppDB \<Rightarrow> nat \<Rightarrow> 'n \<Rightarrow> Direction \<Rightarrow> string \<Rightarrow> int \<Rightarrow> int \<Rightarrow> int
     \<Rightarrow> error + 'n AppDB \<times> 'n dbop list" where
  "addEntry_transaction db pid numAmount dir note_str date_val now_created now_updated =
     (case partiesGet (parties db) pid of
        None \<Rightarrow> Inl PartyNotFound
      | Some currentParty \<Rightarrow>
          (let es = sortBy_date (where_partyId (entries db) pid);
               newEntry = make_newEntry pid numAmount dir note_str date_val now_created;
               allEntries = js_sort compare_entries_add (es @ [newEntry]);
               (runningBalance, updates, newEntry') = add_loop 0 [] newEntry allEntries;
               updates' = updates @ [EntriesAdd newEntry',
                                     PartiesUpdate pid runningBalance now_updated]
           in Inr (Promise_all updates' db, updates')))"

text \<open>
  \<^verbatim>\<open>handleSubmit\<close>, from the parsed amount on. \<open>party\<close> is the value of the live query
  the component holds and \<open>entryId\<close> its optional prop (\<^verbatim>\<open>if (entryId)\<close> is false for
  \<^verbatim>\<open>undefined\<close> and for \<open>0\<close>). A rejected validation returns without writing;
  \<^verbatim>\<open>isNaN(numAmount)\<close> is \<^verbatim>\<open>numAmount !== numAmount\<close>, which holds of \<^verbatim>\<open>NaN\<close> only. The edit
  path awaits the update of the entry and then the recalculation, one after the
  other.
\<close>

definition handleSubmit ::
  "'n::{zero,plus,uminus,ord} AppDB \<Rightarrow> 'n Party option \<Rightarrow> nat \<Rightarrow> nat option \<Rightarrow> 'n
     \<Rightarrow> Direction \<Rightarrow> string \<Rightarrow> int \<Rightarrow> int \<Rightarrow> int \<Rightarrow> error + 'n AppDB \<times> 'n dbop list" where
  "handleSubmit db party pid entryId numAmount dir note_str date_val now_created now_updated =
     (if strict_ne numAmount numAmount \<or> numAmount \<le> 0 \<or> party = None then Inr (db, [])
      else case entryId of
        Some (Suc k) \<Rightarrow>
          (let edit = EntriesEdit (Suc k) numAmount dir note_str date_val;
               (db', updates) = recalculateBalancesForParty (exec edit db) pid now_updated
           in Inr (db', edit # updates))
      | _ \<Rightarrow> addEntry_transaction db pid numAmount dir note_str date_val now_created now_updated)"

text \<open>\<^verbatim>\<open>handleConfirmDelete\<close>; the argument is the state \<^verbatim>\<open>deleteConfirmation\<close>.\<close>

datatype confirmation = DeleteParty nat | DeleteEntry nat nat

definition handleConfirmDelete ::
  "'n::{zero,plus,uminus,ord} AppDB \<Rightarrow> confirmation option \<Rightarrow> int \<Rightarrow> 'n AppDB \<times> 'n dbop list" where
  "handleConfirmDelete db deleteConfirmation now =
     (case deleteConfirmation of
        None \<Rightarrow> (db, [])
      | Some (DeleteParty pid) \<Rightarrow>
          (Promise_all [EntriesDeleteWhere pid, PartiesDelete pid] db,
           [EntriesDeleteWhere pid, PartiesDelete pid])
      | Some (DeleteEntry pid entryId) \<Rightarrow>
          (let (db', updates) =
                 recalculateBalancesForParty (exec (EntriesDelete entryId) db) pid now
           in (db', EntriesDelete entryId # updates)))"

section \<open>The ledger invariant, in the words of the specification\<close>

definition signedAmount :: "'n::uminus LedgerEntry \<Rightarrow> 'n" where
  "signedAmount e = (if direction e = credit then amount e else - amount e)"

text \<open>Sorting by (date ascending, createdAt ascending); rows that agree on both keep
  the order of the table, the primary-key order.\<close>

definition chron_key :: "'n LedgerEntry \<Rightarrow> int \<times> int" where
  "chron_key e = (date e, createdAt e)"

definition chronological :: "'n LedgerEntry list \<Rightarrow> 'n LedgerEntry list" where
  "chronological rows = sort_key chron_key rows"

definition ledger :: "'n AppDB \<Rightarrow> nat \<Rightarrow> 'n LedgerEntry list" where
  "ledger db pid = chronological (where_partyId (entries db) pid)"

text \<open>The sum of the signed amounts of a list of entries, added from the left from \<open>0\<close>.\<close>

definition sum_signed :: "'n::{zero,plus,uminus} LedgerEntry list \<Rightarrow> 'n" where
  "sum_signed es = foldl (\<lambda>s e. s + signedAmount e) 0 es"

definition balances_consistent :: "'n::{zero,plus,uminus} LedgerEntry list \<Rightarrow> bool" where
  "balances_consistent es =
     (\<forall>i < length es. balanceAfter (es ! i) = sum_signed (take (Suc i) es))"


text \<open>
  What IndexedDB guarantees of the entries table: primary keys are unique, rows
  come in key order, and every key was produced by the generator, which starts
  at \<open>1\<close> and stays above the keys it has given out.
\<close>

definition wf_db :: "'n AppDB \<Rightarrow> bool" where
  "wf_db db =
     (0 < entries_key db \<and>
      sorted_wrt (<) (map entry_id (entries db)) \<and>
      list_all (\<lambda>e. 0 < entry_id e \<and> entry_id e < entries_key db) (entries db))"

section \<open>Auxiliary notions for the proofs\<close>

text \<open>The running balances of a list of entries, from a starting balance: the values
  \<^verbatim>\<open>runningBalance\<close> takes in the loops.\<close>

fun running_from :: "'n::{plus,uminus} \<Rightarrow> 'n LedgerEntry list \<Rightarrow> 'n list" where
  "running_from rb [] = []"
| "running_from rb (e # es) = (rb + signedAmount e) # running_from (rb + signedAmount e) es"

text \<open>The recurrence of the specification: \<open>runningBalance es i\<close> is the balance after the
  first \<open>i\<close> entries of \<open>es\<close>.\<close>

fun runningBalance :: "'n::{zero,plus,uminus} LedgerEntry list \<Rightarrow> nat \<Rightarrow> 'n" where
  "runningBalance es 0 = 0"
| "runningBalance es (Suc i) = runningBalance es i + signedAmount (es ! i)"

text \<open>The update operations a loop issues for entries paired with their new balances.\<close>

definition balance_updates :: "('n::ord LedgerEntry \<times> 'n) list \<Rightarrow> 'n dbop list" where
  "balance_updates ps =
     map (\<lambda>(e, b). EntriesUpdate (entry_id e) b)
       (filter (\<lambda>(e, b). strict_ne (balanceAfter e) b) ps)"

text \<open>A table in which the rows with the given keys carry the given balances.\<close>

definition assign_balances ::
  "(nat \<times> 'n) list \<Rightarrow> 'n LedgerEntry list \<Rightarrow> 'n LedgerEntry list" where
  "assign_balances kvs rows =
     map (\<lambda>r. case map_of kvs (entry_id r) of Some b \<Rightarrow> r\<lparr>balanceAfter := b\<rparr> | None \<Rightarrow> r) rows"

text \<open>A ledger in chronological order with every balance recomputed.\<close>

definition rebalance :: "'n::{zero,plus,uminus} LedgerEntry list \<Rightarrow> 'n LedgerEntry list" where
  "rebalance es = map (\<lambda>(e, b). e\<lparr>balanceAfter := b\<rparr>) (zip es (running_from 0 es))"

text \<open>The entries chronologically before and after the insertion point of a candidate
  \<open>c\<close>: a stored entry with the same date and creation time comes before it.\<close>

definition before_candidate ::
  "'n LedgerEntry \<Rightarrow> 'n LedgerEntry list \<Rightarrow> 'n LedgerEntry list" where
  "before_candidate c es = filter (\<lambda>e. chron_key e \<le> chron_key c) es"

definition after_candidate ::
  "'n LedgerEntry \<Rightarrow> 'n LedgerEntry list \<Rightarrow> 'n LedgerEntry list" where
  "after_candidate c es = filter (\<lambda>e. chron_key c < chron_key e) es"

text \<open>The chronological order of a ledger \<open>es\<close> with a candidate \<open>c\<close> ranked in it, the
  running balance at the candidate's place, and the updates the add path issues.\<close>

definition ledger_with :: "'n LedgerEntry \<Rightarrow> 'n LedgerEntry list \<Rightarrow> 'n LedgerEntry list" where
  "ledger_with c es = before_candidate c es @ c # after_candidate c es"



text \<open>The ledger the add path leaves: every entry of \<open>ledger_with c es\<close> with its running
  balance, the candidate under the key \<open>k\<close> it was given.\<close>

definition committed_ledger ::
  "nat \<Rightarrow> 'n::{zero,plus,uminus} LedgerEntry \<Rightarrow> 'n LedgerEntry list \<Rightarrow> 'n LedgerEntry list" where
  "committed_ledger k c es =
     map (\<lambda>(e, b). (if e = c then e\<lparr>entry_id := k\<rparr> else e)\<lparr>balanceAfter := b\<rparr>)
       (zip (ledger_with c es) (running_from 0 (ledger_with c es)))"

text \<open>The balance the store holds for a party, if the party exists.\<close>

definition stored_balance :: "'n AppDB \<Rightarrow> nat \<Rightarrow> 'n option" where
  "stored_balance db pid = map_option balance (partiesGet (parties db) pid)"

text \<open>The key of the entry row an operation updates or deletes, and the rows a list of
  operations writes; the writes to the parties table.\<close>

fun op_key :: "'n dbop \<Rightarrow> nat option" where
  "op_key (EntriesUpdate k v) = Some k"
| "op_key (EntriesEdit k a d n t) = Some k"
| "op_key (EntriesDelete k) = Some k"
| "op_key (EntriesAdd e) = None"
| "op_key (EntriesDeleteWhere p) = None"
| "op_key (PartiesUpdate k b t) = None"
| "op_key (PartiesDelete k) = None"

definition written_keys :: "'n dbop list \<Rightarrow> nat list" where
  "written_keys ops = List.map_filter op_key ops"

fun is_party_write :: "'n dbop \<Rightarrow> bool" where
  "is_party_write (PartiesUpdate k b t) = True"
| "is_party_write (PartiesDelete k) = True"
| "is_party_write (EntriesUpdate k v) = False"
| "is_party_write (EntriesEdit k a d n t) = False"
| "is_party_write (EntriesDelete k) = False"
| "is_party_write (EntriesAdd e) = False"
| "is_party_write (EntriesDeleteWhere p) = False"

definition party_writes :: "'n dbop list \<Rightarrow> 'n dbop list" where
  "party_writes ops = filter is_party_write ops"

definition entry_writes :: "'n dbop list \<Rightarrow> 'n dbop list" where
  "entry_writes ops = filter (\<lambda>op. \<not> is_party_write op) ops"




text \<open>The fields of an entry an edit leaves alone, and the fields it sets.\<close>

definition identity_fields :: "'n LedgerEntry \<Rightarrow> nat \<times> nat \<times> int" where
  "identity_fields e = (entry_id e, partyId e, createdAt e)"

definition edited_fields :: "'n LedgerEntry \<Rightarrow> 'n \<times> Direction \<times> string option \<times> int" where
  "edited_fields e = (amount e, direction e, note_text e, date e)"

text \<open>
  A submission of the edit form: the arguments of \<open>handleSubmit\<close> with an entry id
  (\<open>Suc k\<close>, since \<^verbatim>\<open>if (entryId)\<close> sends the id \<open>0\<close> to the add path). \<open>apply_edits\<close>
  runs a sequence of them, each on the store the one before left.
\<close>

datatype 'n edit =
  Edit "'n Party option" nat nat 'n Direction string int int

fun submit_edit :: "'n::{zero,plus,uminus,ord} AppDB \<Rightarrow> 'n edit \<Rightarrow> 'n AppDB" where
  "submit_edit db (Edit party pid k a d n t now) =
     (case handleSubmit db party pid (Some (Suc k)) a d n t now now of
        Inr (db', updates) \<Rightarrow> db'
      | Inl err \<Rightarrow> db)"

fun apply_edits :: "'n::{zero,plus,uminus,ord} AppDB \<Rightarrow> 'n edit list \<Rightarrow> 'n AppDB" where
  "apply_edits db [] = db"
| "apply_edits db (r # rs) = apply_edits (submit_edit db r) rs"


section \<open>Example stores\<close>

text \<open>
  The scenario of the specification, over \<open>int\<close>: party \<open>1\<close> with entry A (credit 100
  on day 1) and entry B (debit 30 on day 3). \<open>store_AB\<close> holds the balances the
  invariant asks for, \<open>store_stale\<close> holds out-of-date ones, \<open>store_A\<close> has the
  single entry A, and \<open>store_empty\<close> has the party and no entry.
\<close>

definition party_P :: "int \<Rightarrow> int Party" where
  "party_P b = \<lparr>party_id = 1, party_type = customer, name = ''P'', phone = ''555'',
                party_createdAt = 0, updatedAt = 0, balance = b\<rparr>"

definition entry_A :: "int \<Rightarrow> int LedgerEntry" where
  "entry_A b = \<lparr>entry_id = 1, partyId = 1, direction = credit, amount = 100, date = 1,
                note_text = None, balanceAfter = b, createdAt = 10\<rparr>"

definition entry_B :: "int \<Rightarrow> int LedgerEntry" where
  "entry_B b = \<lparr>entry_id = 2, partyId = 1, direction = debit, amount = 30, date = 3,
                note_text = None, balanceAfter = b, createdAt = 20\<rparr>"

definition store_AB :: "int AppDB" where
  "store_AB = \<lparr>parties = [party_P 70], entries = [entry_A 100, entry_B 70], entries_key = 3\<rparr>"


definition store_A :: "int AppDB" where
  "store_A = \<lparr>parties = [party_P 100], entries = [entry_A 100], entries_key = 2\<rparr>"

definition store_empty :: "int AppDB" where
  "store_empty = \<lparr>parties = [party_P 0], entries = [], entries_key = 1\<rparr>"

text \<open>A store without party \<open>2\<close> (\<open>store_empty\<close>), and a store whose entries A and B
  name a party that has no row.\<close>

definition store_orphan :: "int AppDB" where
  "store_orphan = \<lparr>parties = [], entries = [entry_A 0, entry_B 0], entries_key = 3\<rparr>"

text \<open>Two entries of party \<open>1\<close> with the same date and the same creation time.\<close>

definition store_ties :: "int AppDB" where
  "store_ties =
     \<lparr>parties = [party_P 0],
      entries = [\<lparr>entry_id = 1, partyId = 1, direction = credit, amount = 10, date = 1,
                  note_text = None, balanceAfter = 0, createdAt = 10\<rparr>,
                 \<lparr>entry_id = 2, partyId = 1, direction = debit, amount = 4, date = 1,
                  note_text = None, balanceAfter = 0, createdAt = 10\<rparr>],
      entries_key = 3\<rparr>"









definition party_D :: "double \<Rightarrow> double Party" where
  "party_D b = \<lparr>party_id = 1, party_type = customer, name = ''P'', phone = ''555'',
                party_createdAt = 0, updatedAt = 0, balance = b\<rparr>"

definition double_entry :: "nat \<Rightarrow> Direction \<Rightarrow> double \<Rightarrow> int \<Rightarrow> double \<Rightarrow> double LedgerEntry" where
  "double_entry k dir a day b =
     \<lparr>entry_id = k, partyId = 1, direction = dir, amount = a, date = day,
      note_text = None, balanceAfter = b, createdAt = 10\<rparr>"



definition store_infinite :: "double AppDB" where
  "store_infinite =
     \<lparr>parties = [party_D 0],
      entries = [double_entry 1 credit PosInfinity 1 0, double_entry 2 debit PosInfinity 2 0],
      entries_key = 3\<rparr>"

section \<open>The comparison of numbers\<close>

text \<open>On a partial order, so on a number type without \<^verbatim>\<open>NaN\<close>, \<^verbatim>\<open>!==\<close> is inequality.\<close>

lemma strict_ne_order [simp]: "strict_ne a b \<longleftrightarrow> a \<noteq> b" for a b :: "'a::order"
  by (auto simp: strict_ne_def)

section \<open>Sorting: the comparators of the code and the order of the specification\<close>

lemma insort_cmp_key:
  assumes "\<And>x y. (c x y \<le> 0) = (k x \<le> k y)"
  shows "insort_cmp c x ys = insort_key k x ys"
  by (induction ys) (simp_all add: assms)

lemma js_sort_key:
  assumes "\<And>x y. (c x y \<le> 0) = (k x \<le> k y)"
  shows "js_sort c xs = sort_key k xs"
  unfolding js_sort_def by (induction xs) (simp_all add: insort_cmp_key [OF assms])

lemma sortBy_date_key: "sortBy_date rows = sort_key date rows"
  unfolding sortBy_date_def by (rule js_sort_key) auto

lemma js_sort_compare_entries: "js_sort compare_entries rows = chronological rows"
  unfolding chronological_def
  by (rule js_sort_key) (auto simp: compare_entries_def js_or_def chron_key_def)


lemma sort_key_refine:
  fixes f :: "'a \<Rightarrow> 'k::linorder" and g :: "'a \<Rightarrow> 'j::linorder"
  assumes "\<And>x y. f x = f y \<Longrightarrow> g x = g y"
  shows "sort_key f (sort_key g xs @ ys) = sort_key f (xs @ ys)"
proof (rule properties_for_sort_key [symmetric])
  show "mset (sort_key f (sort_key g xs @ ys)) = mset (xs @ ys)" by simp
  show "sorted (map f (sort_key f (sort_key g xs @ ys)))" by simp
  fix k assume "k \<in> set (sort_key f (sort_key g xs @ ys))"
  have imp: "\<And>x. f k = f x \<Longrightarrow> g x = g k"
    by (metis assms)
  have pred: "(\<lambda>x. f k = f x) = (\<lambda>x. g x = g k \<and> f k = f x)"
    using imp by blast
  have flip: "(\<lambda>x. f k = f x) = (\<lambda>x. f x = f k)"
    by (rule ext) (rule eq_commute)
  have "filter (\<lambda>x. f k = f x) (sort_key g xs) =
        filter (\<lambda>x. f k = f x) (filter (\<lambda>x. g x = g k) (sort_key g xs))"
    unfolding filter_filter by (rule arg_cong [where f = "\<lambda>P. filter P (sort_key g xs)"]) (rule pred)
  also have "\<dots> = filter (\<lambda>x. f k = f x) (filter (\<lambda>x. g x = g k) xs)"
    by (simp only: sort_key_stable)
  also have "\<dots> = filter (\<lambda>x. f k = f x) xs"
    unfolding filter_filter by (rule arg_cong [where f = "\<lambda>P. filter P xs"]) (rule pred [symmetric])
  finally have inner: "filter (\<lambda>x. f k = f x) (sort_key g xs) = filter (\<lambda>x. f k = f x) xs" .
  have "filter (\<lambda>x. f k = f x) (sort_key f (sort_key g xs @ ys)) =
        filter (\<lambda>x. f k = f x) (sort_key g xs @ ys)"
    unfolding flip by (rule sort_key_stable)
  also have "\<dots> = filter (\<lambda>x. f k = f x) (xs @ ys)"
    unfolding filter_append inner ..
  finally show "filter (\<lambda>x. f k = f x) (sort_key f (sort_key g xs @ ys)) =
                filter (\<lambda>x. f k = f x) (xs @ ys)" .
qed

lemma chronological_sortBy_date:
  "chronological (sortBy_date rows @ ys) = chronological (rows @ ys)"
  unfolding chronological_def sortBy_date_key
  by (rule sort_key_refine) (simp add: chron_key_def)

lemma insort_key_map_same:
  assumes "\<And>x. f (g x) = f x"
  shows "insort_key f (g x) (map g xs) = map g (insort_key f x xs)"
  by (induction xs) (simp_all add: assms)

lemma sort_key_map_same:
  assumes "\<And>x. f (g x) = f x"
  shows "sort_key f (map g xs) = map g (sort_key f xs)"
  by (induction xs) (simp_all add: insort_key_map_same [of f g, OF assms])




section \<open>The loops, as running balances\<close>

lemma length_running_from [simp]: "length (running_from rb es) = length es"
  by (induction es arbitrary: rb) simp_all

lemma recalc_loop_eq:
  "recalc_loop rb ups es =
     (foldl (\<lambda>s e. s + signedAmount e) rb es,
      ups @ balance_updates (zip es (running_from rb es)))"
proof (induction es arbitrary: rb ups)
  case Nil
  show ?case by (simp add: balance_updates_def)
next
  case (Cons e es)
  show ?case
    by (simp add: Cons.IH Let_def balance_updates_def signedAmount_def)
qed



lemma running_from_nth:
  "i < length es \<Longrightarrow>
     running_from rb es ! i = foldl (\<lambda>s e. s + signedAmount e) rb (take (Suc i) es)"
proof (induction es arbitrary: rb i)
  case Nil
  then show ?case by simp
next
  case (Cons e es)
  then show ?case by (cases i) simp_all
qed

lemma balances_consistent_iff:
  "balances_consistent es \<longleftrightarrow> map balanceAfter es = running_from 0 es"
  unfolding balances_consistent_def sum_signed_def
  by (auto simp: list_eq_iff_nth_eq running_from_nth)




section \<open>The effect of the balance updates on the entries table\<close>


lemma fold_exec_balance_updates:
  "fold exec (map (\<lambda>(e, b). EntriesUpdate (entry_id e) b) ps) db =
     db\<lparr>entries := fold (\<lambda>(e, b). entriesUpdate (entry_id e) b) ps (entries db)\<rparr>"
  by (induction ps arbitrary: db) (auto)

lemma Promise_all_balance_updates:
  "Promise_all (balance_updates ps) db =
     db\<lparr>entries := fold (\<lambda>(e, b). entriesUpdate (entry_id e) b)
                         (filter (\<lambda>(e, b). strict_ne (balanceAfter e) b) ps) (entries db)\<rparr>"
  by (simp add: Promise_all_def balance_updates_def fold_exec_balance_updates)

lemma entriesUpdate_same:
  assumes "distinct (map entry_id rows)" and "e \<in> set rows" and "balanceAfter e = b"
  shows "entriesUpdate (entry_id e) b rows = rows"
proof -
  have uniq: "\<And>r. r \<in> set rows \<Longrightarrow> entry_id r = entry_id e \<Longrightarrow> r = e"
    using assms(1,2) by (meson distinct_map inj_onD)
  have "e\<lparr>balanceAfter := b\<rparr> = e"
    using assms(3) by simp
  then have "\<And>r. r \<in> set rows \<Longrightarrow>
      (if entry_id r = entry_id e then r\<lparr>balanceAfter := b\<rparr> else r) = r"
    using uniq by metis
  then show ?thesis unfolding entriesUpdate_def by (simp add: map_idI)
qed

lemma entry_id_entriesUpdate [simp]:
  "map entry_id (entriesUpdate k v rows) = map entry_id rows"
  by (simp add: entriesUpdate_def comp_def if_distrib cong: if_cong)

lemma assign_balances_Nil [simp]: "assign_balances [] rows = rows"
  by (simp add: assign_balances_def)

lemma assign_balances_Cons:
  assumes "k \<notin> fst ` set kvs"
  shows "assign_balances ((k, b) # kvs) rows = assign_balances kvs (entriesUpdate k b rows)"
proof -
  have "map_of kvs k = None" using assms by (simp add: map_of_eq_None_iff)
  then show ?thesis
    by (auto simp: assign_balances_def entriesUpdate_def)
qed

lemma in_set_entriesUpdate_other:
  "e \<in> set rows \<Longrightarrow> entry_id e \<noteq> k \<Longrightarrow> e \<in> set (entriesUpdate k v rows)"
  by (force simp: entriesUpdate_def)

lemma fold_updates_assign:
  fixes rows :: "'n::order LedgerEntry list"
  assumes "distinct (map entry_id rows)" and "distinct (map entry_id es)"
    and "set es \<subseteq> set rows" and "length bs = length es"
  shows "fold (\<lambda>(e, b). entriesUpdate (entry_id e) b)
           (filter (\<lambda>(e, b). strict_ne (balanceAfter e) b) (zip es bs)) rows =
         assign_balances (zip (map entry_id es) bs) rows"
  using assms
proof (induction es arbitrary: bs rows)
  case Nil
  then show ?case by simp
next
  case (Cons e es)
  then obtain b bs' where bs: "bs = b # bs'" by (cases bs) auto
  have notin: "entry_id e \<notin> fst ` set (zip (map entry_id es) bs')"
    using Cons.prems(2) by (auto dest!: set_zip_leftD)
  let ?rows' = "entriesUpdate (entry_id e) b rows"
  have d': "distinct (map entry_id ?rows')" using Cons.prems(1) by simp
  have sub': "set es \<subseteq> set ?rows'"
  proof
    fix x assume x: "x \<in> set es"
    then have "entry_id x \<noteq> entry_id e" using Cons.prems(2) by (metis distinct.simps(2) image_eqI list.simps(9) set_map)
    moreover have "x \<in> set rows" using x Cons.prems(3) by auto
    ultimately show "x \<in> set ?rows'" by (rule in_set_entriesUpdate_other [rotated])
  qed
  have IH: "fold (\<lambda>(e, b). entriesUpdate (entry_id e) b)
              (filter (\<lambda>(e, b). strict_ne (balanceAfter e) b) (zip es bs')) ?rows' =
            assign_balances (zip (map entry_id es) bs') ?rows'"
    using Cons.IH [OF d' _ sub', of bs'] Cons.prems(2,4) bs by simp
  show ?case
  proof (cases "balanceAfter e = b")
    case True
    have "?rows' = rows"
      using Cons.prems(1,3) True by (intro entriesUpdate_same) auto
    then show ?thesis
      using IH True bs by (simp add: assign_balances_Cons [OF notin])
  next
    case False
    then show ?thesis
      using IH bs by (simp add: assign_balances_Cons [OF notin])
  qed
qed

lemma where_partyId_assign:
  "where_partyId (assign_balances kvs rows) pid = assign_balances kvs (where_partyId rows pid)"
  unfolding where_partyId_def assign_balances_def filter_map
  by (rule arg_cong [where f = "\<lambda>P. map _ (filter P rows)"]) (auto split: option.splits)

lemma chronological_assign:
  "chronological (assign_balances kvs rows) = assign_balances kvs (chronological rows)"
  unfolding chronological_def assign_balances_def
  by (rule sort_key_map_same) (simp add: chron_key_def split: option.splits)

lemma assign_balances_self:
  assumes "distinct (map entry_id es)" and "length bs = length es"
  shows "assign_balances (zip (map entry_id es) bs) es =
         map (\<lambda>(e, b). e\<lparr>balanceAfter := b\<rparr>) (zip es bs)"
proof (rule nth_equalityI)
  show "length (assign_balances (zip (map entry_id es) bs) es) =
        length (map (\<lambda>(e, b). e\<lparr>balanceAfter := b\<rparr>) (zip es bs))"
    using assms(2) by (simp add: assign_balances_def)
next
  fix i assume "i < length (assign_balances (zip (map entry_id es) bs) es)"
  then have i: "i < length es" by (simp add: assign_balances_def)
  have "map_of (zip (map entry_id es) bs) (map entry_id es ! i) = Some (bs ! i)"
    using assms i by (intro map_of_zip_nth) auto
  then show "assign_balances (zip (map entry_id es) bs) es ! i =
             map (\<lambda>(e, b). e\<lparr>balanceAfter := b\<rparr>) (zip es bs) ! i"
    using i assms(2) by (simp add: assign_balances_def)
qed

section \<open>The recalculation pass\<close>

lemma ledger_code: "js_sort compare_entries (sortBy_date (where_partyId rows pid)) =
    chronological (where_partyId rows pid)"
  using chronological_sortBy_date [of "where_partyId rows pid" "[]"]
  by (simp add: js_sort_compare_entries)

lemma wf_db_distinct: "wf_db db \<Longrightarrow> distinct (map entry_id (entries db))"
  unfolding wf_db_def by (simp add: strict_sorted_iff)

lemma distinct_chronological:
  "distinct (map entry_id rows) \<Longrightarrow> distinct (map entry_id (chronological rows))"
proof -
  assume "distinct (map entry_id rows)"
  moreover have "mset (map entry_id (chronological rows)) = mset (map entry_id rows)"
    by (simp add: chronological_def)
  ultimately show ?thesis by (metis mset_eq_imp_distinct_iff)
qed

lemma distinct_ledger:
  "distinct (map entry_id (entries db)) \<Longrightarrow> distinct (map entry_id (ledger db pid))"
  unfolding ledger_def where_partyId_def
  by (intro distinct_chronological distinct_map_filter)

lemma set_ledger: "set (ledger db pid) = {e \<in> set (entries db). partyId e = pid}"
  by (auto simp: ledger_def where_partyId_def chronological_def)

text \<open>The store after the entry updates of a pass over the ledger of a party.\<close>

lemma Promise_all_ledger_updates:
  fixes db :: "'n::{zero,plus,uminus,order} AppDB"
  assumes "distinct (map entry_id (entries db))"
  shows "Promise_all (balance_updates (zip (ledger db pid) (running_from 0 (ledger db pid)))) db =
         db\<lparr>entries := assign_balances
                 (zip (map entry_id (ledger db pid)) (running_from 0 (ledger db pid)))
                 (entries db)\<rparr>"
  unfolding Promise_all_balance_updates
  using assms
  by (subst fold_updates_assign) (auto simp: distinct_ledger set_ledger)

lemma recalculate_unfold:
  "recalculateBalancesForParty db pid now =
     (let es = ledger db pid;
          updates = balance_updates (zip es (running_from 0 es));
          db1 = Promise_all updates db
      in case partiesGet (parties db1) pid of
           Some party \<Rightarrow>
             if strict_ne (balance party) (sum_signed es) then
               (exec (PartiesUpdate pid (sum_signed es) now) db1,
                updates @ [PartiesUpdate pid (sum_signed es) now])
             else if es = [] then
               (exec (PartiesUpdate pid 0 now) db1, updates @ [PartiesUpdate pid 0 now])
             else (db1, updates)
         | None \<Rightarrow> (db1, updates))"
  unfolding recalculateBalancesForParty_def ledger_code recalc_loop_eq ledger_def sum_signed_def
  by (simp add: Let_def)

lemma parties_Promise_all_balance_updates [simp]:
  "parties (Promise_all (balance_updates ps) db) = parties db"
  by (simp add: Promise_all_balance_updates)

lemma entries_key_Promise_all_balance_updates [simp]:
  "entries_key (Promise_all (balance_updates ps) db) = entries_key db"
  by (simp add: Promise_all_balance_updates)

lemma entries_recalculate:
  fixes db :: "'n::{zero,plus,uminus,order} AppDB"
  assumes "distinct (map entry_id (entries db))"
  shows "entries (fst (recalculateBalancesForParty db pid now)) =
         assign_balances (zip (map entry_id (ledger db pid)) (running_from 0 (ledger db pid)))
           (entries db)"
proof -
  have "entries (fst (recalculateBalancesForParty db pid now)) =
        entries (Promise_all (balance_updates (zip (ledger db pid) (running_from 0 (ledger db pid)))) db)"
    unfolding recalculate_unfold Let_def by (simp split: option.splits)
  then show ?thesis
    by (simp add: Promise_all_ledger_updates [OF assms])
qed

lemma ledger_assign:
  assumes "entries db' = assign_balances kvs (entries db)"
  shows "ledger db' pid = assign_balances kvs (ledger db pid)"
  unfolding ledger_def assms where_partyId_assign chronological_assign ..

lemma ledger_recalculate:
  fixes db :: "'n::{zero,plus,uminus,order} AppDB"
  assumes "distinct (map entry_id (entries db))"
  shows "ledger (fst (recalculateBalancesForParty db pid now)) pid = rebalance (ledger db pid)"
  unfolding ledger_assign [OF entries_recalculate [OF assms]] rebalance_def
  by (rule assign_balances_self) (simp_all add: distinct_ledger [OF assms])

lemma running_from_cong:
  "map signedAmount xs = map signedAmount ys \<Longrightarrow> running_from rb xs = running_from rb ys"
proof (induction xs arbitrary: ys rb)
  case Nil
  then show ?case by simp
next
  case (Cons x xs)
  then obtain y ys' where ys: "ys = y # ys'" by (cases ys) auto
  have hd: "signedAmount x = signedAmount y" and tl: "map signedAmount xs = map signedAmount ys'"
    using Cons.prems ys by simp_all
  have "running_from (rb + signedAmount y) xs = running_from (rb + signedAmount y) ys'"
    using tl by (rule Cons.IH)
  then show ?case unfolding ys by (simp add: hd)
qed

lemma signedAmount_rebalance: "map signedAmount (rebalance es) = map signedAmount es"
  unfolding rebalance_def
  by (rule nth_equalityI) (simp_all add: signedAmount_def)

lemma balanceAfter_rebalance: "map balanceAfter (rebalance es) = running_from 0 es"
  unfolding rebalance_def
  by (rule nth_equalityI) simp_all

lemma balances_consistent_rebalance: "balances_consistent (rebalance es)"
  unfolding balances_consistent_iff balanceAfter_rebalance
  by (rule running_from_cong) (simp add: signedAmount_rebalance)

lemma length_rebalance [simp]: "length (rebalance es) = length es"
  by (simp add: rebalance_def)


lemma partiesGet_update:
  "partiesGet rows k = Some p \<Longrightarrow>
     partiesGet (partiesUpdate k b t rows) k = Some (p\<lparr>balance := b, updatedAt := t\<rparr>)"
  unfolding partiesGet_def partiesUpdate_def
  by (induction rows) (auto split: if_splits)

lemma party_recalculate:
  fixes db :: "'n::{zero,plus,uminus,order} AppDB"
  assumes "partiesGet (parties db) pid = Some p"
  shows "\<exists>p'. partiesGet (parties (fst (recalculateBalancesForParty db pid now))) pid = Some p'
            \<and> balance p' = sum_signed (ledger db pid)"
  unfolding recalculate_unfold Let_def
  using assms by (auto simp: partiesGet_update sum_signed_def)

section \<open>The loop of the add path\<close>





section \<open>The add transaction, unfolded\<close>


lemma wf_db_below_key: "wf_db db \<Longrightarrow> e \<in> set (entries db) \<Longrightarrow> entry_id e < entries_key db"
  unfolding wf_db_def by (auto simp: list_all_iff)






lemma make_newEntry_simps [simp]:
  "entry_id (make_newEntry pid a d n t nc) = 0"
  "partyId (make_newEntry pid a d n t nc) = pid"
  "direction (make_newEntry pid a d n t nc) = d"
  "amount (make_newEntry pid a d n t nc) = a"
  "date (make_newEntry pid a d n t nc) = t"
  "createdAt (make_newEntry pid a d n t nc) = nc"
  "note_text (make_newEntry pid a d n t nc) = Some n"
  "balanceAfter (make_newEntry pid a d n t nc) = 0"
  by (simp_all add: make_newEntry_def)



section \<open>The entries table after the add transaction\<close>








section \<open>The ledger after the add transaction\<close>







section \<open>The ledger invariant after each mutation\<close>




lemma balanceAfter_committed:
  "map balanceAfter (committed_ledger k c es) = running_from 0 (ledger_with c es)"
  unfolding committed_ledger_def
  by (rule nth_equalityI) simp_all

lemma ledger_with_not_Nil [simp]: "ledger_with c es \<noteq> []"
  by (simp add: ledger_with_def)

lemma committed_ledger_not_Nil [simp]: "committed_ledger k c es \<noteq> []"
  by (metis balanceAfter_committed ledger_with_not_Nil length_0_conv length_map length_running_from)

lemma wf_db_iff:
  "wf_db db \<longleftrightarrow>
     0 < entries_key db \<and> sorted_wrt (<) (map entry_id (entries db)) \<and>
     (\<forall>k\<in>set (map entry_id (entries db)). 0 < k \<and> k < entries_key db)"
  unfolding wf_db_def by (auto simp: list_all_iff)

lemma wf_db_assign:
  assumes "wf_db db" and "entries db' = assign_balances kvs (entries db)"
    and "entries_key db' = entries_key db"
  shows "wf_db db'"
proof -
  have ids: "map entry_id (entries db') = map entry_id (entries db)"
    unfolding assms(2) assign_balances_def by (simp add: comp_def split: option.splits)
  show ?thesis
    using assms(1) unfolding wf_db_iff ids assms(3) .
qed

lemma wf_db_recalculate:
  fixes db :: "'n::{zero,plus,uminus,order} AppDB"
  assumes "wf_db db"
  shows "wf_db (fst (recalculateBalancesForParty db pid now))"
proof (rule wf_db_assign [OF assms])
  show "entries (fst (recalculateBalancesForParty db pid now)) =
        assign_balances (zip (map entry_id (ledger db pid)) (running_from 0 (ledger db pid)))
          (entries db)"
    by (rule entries_recalculate [OF wf_db_distinct [OF assms]])
  show "entries_key (fst (recalculateBalancesForParty db pid now)) = entries_key db"
    unfolding recalculate_unfold Let_def by (simp split: option.splits)
qed





lemma parties_exec_delete [simp]: "parties (exec (EntriesDelete k) db) = parties db"
  by simp


section \<open>Running balances as sums\<close>






lemma stored_balance_recalculate:
  fixes db :: "'n::{zero,plus,uminus,order} AppDB"
  assumes "partiesGet (parties db) pid = Some p"
  shows "stored_balance (fst (recalculateBalancesForParty db pid now)) pid =
         Some (sum_signed (ledger db pid))"
  using party_recalculate [OF assms, of now] by (auto simp: stored_balance_def)

section \<open>Recalculating a consistent ledger\<close>

lemma ledger_Nil_iff: "ledger db pid = [] \<longleftrightarrow> where_partyId (entries db) pid = []"
proof -
  have "length (ledger db pid) = length (where_partyId (entries db) pid)"
    by (simp add: ledger_def chronological_def)
  then show ?thesis by (metis length_0_conv)
qed

lemma balance_updates_none:
  "map balanceAfter es = bs \<Longrightarrow> balance_updates (zip es bs) = []"
  for es :: "'n::order LedgerEntry list"
  unfolding balance_updates_def
  by (auto simp: filter_empty_conv in_set_zip)

lemma Promise_all_Nil [simp]: "Promise_all [] db = db"
  by (simp add: Promise_all_def)

lemma recalculate_consistent:
  fixes db :: "'n::{zero,plus,uminus,order} AppDB"
  assumes "balances_consistent (ledger db pid)"
  shows "recalculateBalancesForParty db pid now =
     (case partiesGet (parties db) pid of
        Some party \<Rightarrow>
          if strict_ne (balance party) (sum_signed (ledger db pid)) then
            (exec (PartiesUpdate pid (sum_signed (ledger db pid)) now) db,
             [PartiesUpdate pid (sum_signed (ledger db pid)) now])
          else if ledger db pid = [] then
            (exec (PartiesUpdate pid 0 now) db, [PartiesUpdate pid 0 now])
          else (db, [])
      | None \<Rightarrow> (db, []))"
proof -
  have none: "balance_updates (zip (ledger db pid) (running_from 0 (ledger db pid))) = []"
    using assms unfolding balances_consistent_iff by (rule balance_updates_none)
  show ?thesis
    unfolding recalculate_unfold Let_def none Promise_all_Nil append_Nil ..
qed

lemma balances_consistent_Nil [simp]: "balances_consistent []"
  by (simp add: balances_consistent_def)

lemma recalculate_empty:
  assumes "ledger db pid = []" and "partiesGet (parties db) pid = Some p"
  shows "recalculateBalancesForParty db pid now =
           (exec (PartiesUpdate pid 0 now) db, [PartiesUpdate pid 0 now])"
proof -
  have none: "balance_updates (zip (ledger db pid) (running_from 0 (ledger db pid))) = []"
    unfolding assms(1) by (simp add: balance_updates_def)
  have zero: "sum_signed (ledger db pid) = 0"
    unfolding assms(1) by (simp add: sum_signed_def)
  show ?thesis
    unfolding recalculate_unfold Let_def none Promise_all_Nil append_Nil assms(2) option.case zero
    using assms(1) by (simp del: exec.simps)
qed

lemma party_writes_balance_updates [simp]: "party_writes (balance_updates ps) = []"
  by (auto simp: party_writes_def balance_updates_def filter_empty_conv)

lemma entry_writes_balance_updates [simp]:
  "entry_writes (balance_updates ps) = balance_updates ps"
  by (auto simp: entry_writes_def balance_updates_def filter_id_conv)

lemma party_writes_append [simp]: "party_writes (xs @ ys) = party_writes xs @ party_writes ys"
  by (simp add: party_writes_def)

lemma entry_writes_append [simp]: "entry_writes (xs @ ys) = entry_writes xs @ entry_writes ys"
  by (simp add: entry_writes_def)

lemma party_writes_simps [simp]:
  "party_writes [] = []"
  "party_writes (PartiesUpdate k b t # ops) = PartiesUpdate k b t # party_writes ops"
  "party_writes (EntriesAdd e # ops) = party_writes ops"
  by (simp_all add: party_writes_def)

lemma entry_writes_simps [simp]:
  "entry_writes [] = []"
  "entry_writes (PartiesUpdate k b t # ops) = entry_writes ops"
  "entry_writes (EntriesAdd e # ops) = EntriesAdd e # entry_writes ops"
  by (simp_all add: entry_writes_def)



section \<open>Two recalculations in a row\<close>

lemma stored_balance_update:
  "partiesGet (parties db) pid = Some p \<Longrightarrow>
     stored_balance (exec (PartiesUpdate pid b t) db) pid = Some b"
  by (simp add: stored_balance_def partiesGet_update)

lemma foldl_signed_map:
  "foldl (\<lambda>s e. s + signedAmount e) a es = foldl (+) a (map signedAmount es)"
  by (induction es arbitrary: a) simp_all

lemma sum_signed_cong:
  "map signedAmount xs = map signedAmount ys \<Longrightarrow> sum_signed xs = sum_signed ys"
  by (simp add: sum_signed_def foldl_signed_map)

lemma sum_signed_rebalance: "sum_signed (rebalance es) = sum_signed es"
  by (rule sum_signed_cong) (rule signedAmount_rebalance)

lemma partiesGet_recalculate_None:
  "partiesGet (parties db) pid = None \<Longrightarrow>
     partiesGet (parties (fst (recalculateBalancesForParty db pid now))) pid = None"
  unfolding recalculate_unfold Let_def by simp

lemma recalculate_after_recalculate:
  fixes db :: "'n::{zero,plus,uminus,order} AppDB"
  assumes wf: "wf_db db"
    and db1_def: "db1 = fst (recalculateBalancesForParty db pid t1)"
  shows "recalculateBalancesForParty db1 pid t2 =
           (if ledger db pid = [] \<and> partiesGet (parties db) pid \<noteq> None
            then (exec (PartiesUpdate pid 0 t2) db1, [PartiesUpdate pid 0 t2])
            else (db1, []))"
proof -
  have led: "ledger db1 pid = rebalance (ledger db pid)"
    unfolding db1_def by (rule ledger_recalculate [OF wf_db_distinct [OF wf]])
  have cons: "balances_consistent (ledger db1 pid)"
    unfolding led by (rule balances_consistent_rebalance)
  have nil: "ledger db1 pid = [] \<longleftrightarrow> ledger db pid = []"
    unfolding led by (metis length_rebalance length_0_conv)
  show ?thesis
  proof (cases "partiesGet (parties db) pid")
    case None
    then have "partiesGet (parties db1) pid = None"
      unfolding db1_def by (rule partiesGet_recalculate_None)
    then show ?thesis
      unfolding recalculate_consistent [OF cons] using None by simp
  next
    case (Some p)
    obtain p' where p': "partiesGet (parties db1) pid = Some p'"
      and bal: "balance p' = sum_signed (ledger db pid)"
      using party_recalculate [OF Some, of t1] unfolding db1_def by blast
    have "balance p' = sum_signed (ledger db1 pid)"
      unfolding led sum_signed_rebalance by (rule bal)
    then show ?thesis
      unfolding recalculate_consistent [OF cons] p' using Some nil by simp
  qed
qed

section \<open>Editing an entry\<close>

lemma map_fold_entriesUpdate:
  assumes "\<And>r b. f (r\<lparr>balanceAfter := b\<rparr>) = f r"
  shows "map f (fold (\<lambda>(e, b). entriesUpdate (entry_id e) b) ps rows) = map f rows"
proof (induction ps arbitrary: rows)
  case Nil
  show ?case by simp
next
  case (Cons x ps)
  obtain e b where x: "x = (e, b)" by (cases x)
  have "map f (entriesUpdate (entry_id e) b rows) = map f rows"
    unfolding entriesUpdate_def by (simp add: assms if_distrib [of f] cong: if_cong)
  then show ?case unfolding x by (simp add: Cons.IH)
qed

lemma map_entries_recalculate:
  assumes "\<And>r b. f (r\<lparr>balanceAfter := b\<rparr>) = f r"
  shows "map f (entries (fst (recalculateBalancesForParty db pid now))) = map f (entries db)"
proof -
  have "entries (fst (recalculateBalancesForParty db pid now)) =
        entries (Promise_all (balance_updates (zip (ledger db pid) (running_from 0 (ledger db pid)))) db)"
    unfolding recalculate_unfold Let_def by (simp split: option.splits)
  then show ?thesis
    unfolding Promise_all_balance_updates by (simp add: map_fold_entriesUpdate [of f, OF assms])
qed

lemma handleSubmit_edit:
  "handleSubmit db party pid (Some (Suc k)) a d n t nc nu =
     (if strict_ne a a \<or> a \<le> 0 \<or> party = None then Inr (db, [])
      else Inr (fst (recalculateBalancesForParty (exec (EntriesEdit (Suc k) a d n t) db) pid nu),
                EntriesEdit (Suc k) a d n t #
                snd (recalculateBalancesForParty (exec (EntriesEdit (Suc k) a d n t) db) pid nu)))"
  unfolding handleSubmit_def by (simp add: Let_def split: prod.splits)

lemma identity_fields_edit:
  "map identity_fields (entriesEdit k a d n t rows) = map identity_fields rows"
  unfolding entriesEdit_def
  by (simp add: identity_fields_def if_distrib [of identity_fields] comp_def cong: if_cong)

lemma edited_fields_edit:
  "map edited_fields (entriesEdit k a d n t rows) =
     map (\<lambda>e. if entry_id e = k then (a, d, Some n, t) else edited_fields e) rows"
  unfolding entriesEdit_def
  by (simp add: edited_fields_def if_distrib [of edited_fields] comp_def cong: if_cong)

lemma entry_edit_fields:
  fixes db :: "'n::{zero,plus,uminus,ord} AppDB"
  assumes "\<not> (strict_ne a a \<or> a \<le> 0)" and "party \<noteq> None"
  shows "\<exists>db' ops. handleSubmit db party pid (Some (Suc k)) a d n t nc nu = Inr (db', ops) \<and>
           map identity_fields (entries db') = map identity_fields (entries db) \<and>
           map edited_fields (entries db') =
             map (\<lambda>e. if entry_id e = Suc k then (a, d, Some n, t) else edited_fields e)
               (entries db)"
proof -
  let ?db1 = "exec (EntriesEdit (Suc k) a d n t) db"
  let ?db' = "fst (recalculateBalancesForParty ?db1 pid nu)"
  have "map identity_fields (entries ?db') = map identity_fields (entries ?db1)"
    by (rule map_entries_recalculate) (simp add: identity_fields_def)
  then have 1: "map identity_fields (entries ?db') = map identity_fields (entries db)"
    by (simp add: identity_fields_edit)
  have "map edited_fields (entries ?db') = map edited_fields (entries ?db1)"
    by (rule map_entries_recalculate) (simp add: edited_fields_def)
  then have 2: "map edited_fields (entries ?db') =
             map (\<lambda>e. if entry_id e = Suc k then (a, d, Some n, t) else edited_fields e)
               (entries db)"
    by (simp add: edited_fields_edit)
  have "handleSubmit db party pid (Some (Suc k)) a d n t nc nu =
          Inr (?db', EntriesEdit (Suc k) a d n t # snd (recalculateBalancesForParty ?db1 pid nu))"
    unfolding handleSubmit_edit using assms by (simp del: exec.simps)
  with 1 2 show ?thesis by blast
qed

lemma identity_fields_submit_edit:
  "map identity_fields (entries (submit_edit db r)) = map identity_fields (entries db)"
proof (cases r)
  case (Edit party pid k a d n t now)
  show ?thesis
  proof (cases "strict_ne a a \<or> a \<le> 0 \<or> party = None")
    case True
    then show ?thesis unfolding Edit by (simp add: handleSubmit_edit)
  next
    case False
    then obtain db' ops where
      "handleSubmit db party pid (Some (Suc k)) a d n t now now = Inr (db', ops)"
      "map identity_fields (entries db') = map identity_fields (entries db)"
      using entry_edit_fields [of a party db pid k d n t now now] by blast
    then show ?thesis unfolding Edit by simp
  qed
qed

lemma identity_fields_apply_edits:
  "map identity_fields (entries (apply_edits db rs)) = map identity_fields (entries db)"
  by (induction rs arbitrary: db) (simp_all add: identity_fields_submit_edit)

lemma compare_entries_same_date:
  "date a = date b \<Longrightarrow> compare_entries a b = createdAt a - createdAt b"
  by (simp add: compare_entries_def js_or_def)

section \<open>The code on the example stores\<close>


lemma store_AB_edit_values:
  "entries (apply_edits store_AB [Edit (Some (party_P 70)) 1 1 30 debit ''x'' 1 50]) =
     [entry_A 100, (entry_B 70)\<lparr>note_text := Some ''x'', date := 1\<rparr>]"
  by (simp add: handleSubmit_def recalculateBalancesForParty_def store_AB_def entry_A_def
      entry_B_def party_P_def where_partyId_def sortBy_date_def js_sort_def compare_entries_def
      js_or_def Promise_all_def entriesUpdate_def entriesEdit_def partiesGet_def
      partiesUpdate_def)

lemma store_AB_ledger: "ledger store_AB 1 = [entry_A 100, entry_B 70]"
  by (simp add: ledger_def chronological_def where_partyId_def store_AB_def entry_A_def
      entry_B_def chron_key_def)




lemma store_AB_add_values:
  "addEntry_transaction store_AB 1 20 credit ''C'' 2 30 31 =
     Inr (\<lparr>parties = [(party_P 90)\<lparr>updatedAt := 31\<rparr>],
           entries = [entry_A 100, entry_B 90,
                      \<lparr>entry_id = 3, partyId = 1, direction = credit, amount = 20, date = 2,
                       note_text = Some ''C'', balanceAfter = 120, createdAt = 30\<rparr>],
           entries_key = 4\<rparr>,
          [EntriesUpdate 2 90,
           EntriesAdd \<lparr>entry_id = 0, partyId = 1, direction = credit, amount = 20, date = 2,
                       note_text = Some ''C'', balanceAfter = 120, createdAt = 30\<rparr>,
           PartiesUpdate 1 90 31])"
  by (simp add: addEntry_transaction_def make_newEntry_def store_AB_def entry_A_def
      entry_B_def party_P_def where_partyId_def sortBy_date_def js_sort_def
      compare_entries_add_def js_or_def Promise_all_def entriesUpdate_def partiesGet_def
      partiesUpdate_def)

lemma store_AB_backdated_values:
  "after_candidate (make_newEntry 1 20 credit ''C'' 2 30) (ledger store_AB 1) = [entry_B 70]"
  "before_candidate (make_newEntry 1 20 credit ''C'' 2 30) (ledger store_AB 1) = [entry_A 100]"
  "handleSubmit store_AB (Some (party_P 70)) 1 None 20 credit ''C'' 2 30 31 =
     addEntry_transaction store_AB 1 20 credit ''C'' 2 30 31"
  unfolding store_AB_ledger
  by (simp_all add: after_candidate_def before_candidate_def make_newEntry_def chron_key_def
      entry_A_def entry_B_def handleSubmit_def)

lemma store_AB_append_values:
  "handleSubmit store_AB (Some (party_P 70)) 1 None 20 credit ''D'' 5 30 31 =
     Inr (\<lparr>parties = [(party_P 90)\<lparr>updatedAt := 31\<rparr>],
           entries = [entry_A 100, entry_B 70,
                      \<lparr>entry_id = 3, partyId = 1, direction = credit, amount = 20, date = 5,
                       note_text = Some ''D'', balanceAfter = 90, createdAt = 30\<rparr>],
           entries_key = 4\<rparr>,
          [EntriesAdd \<lparr>entry_id = 0, partyId = 1, direction = credit, amount = 20, date = 5,
                       note_text = Some ''D'', balanceAfter = 90, createdAt = 30\<rparr>,
           PartiesUpdate 1 90 31])"
  by (simp add: handleSubmit_def addEntry_transaction_def make_newEntry_def store_AB_def
      entry_A_def entry_B_def party_P_def where_partyId_def sortBy_date_def js_sort_def
      compare_entries_add_def js_or_def Promise_all_def entriesUpdate_def partiesGet_def
      partiesUpdate_def)







lemma store_infinite_values:
  "snd (recalculateBalancesForParty store_infinite 1 50) =
     [EntriesUpdate 1 PosInfinity, EntriesUpdate 2 NaN, PartiesUpdate 1 NaN 50]"
  "snd (recalculateBalancesForParty
          (fst (recalculateBalancesForParty store_infinite 1 50)) 1 60) =
     [EntriesUpdate 2 NaN, PartiesUpdate 1 NaN 60]"
  "\<not> (strict_ne PosInfinity PosInfinity \<or> PosInfinity \<le> (0::double))"
  by (simp_all add: recalculateBalancesForParty_def store_infinite_def where_partyId_def
      sortBy_date_def js_sort_def compare_entries_def js_or_def Promise_all_def
      entriesUpdate_def partiesGet_def partiesUpdate_def double_entry_def party_D_def
      strict_ne_def zero_double_def plus_double_def uminus_double_def less_eq_double_def
      Let_def)

section \<open>Inserting into a consistent ledger\<close>












lemma written_keys_simps [simp]:
  "written_keys [] = []"
  "written_keys (EntriesUpdate k v # ops) = k # written_keys ops"
  "written_keys (EntriesAdd e # ops) = written_keys ops"
  "written_keys (PartiesUpdate p b t # ops) = written_keys ops"
  "written_keys (xs @ ys) = written_keys xs @ written_keys ys"
  by (simp_all add: written_keys_def List.map_filter_def)


section \<open>The add path on a consistent ledger\<close>














section \<open>The claims\<close>






text \<open>
  Claim C3 on the code. \<open>recalculateBalancesForParty\<close> has no \<open>throw\<close>: for a party id
  without a party row it returns normally, here without a write on \<open>store_empty\<close>
  and with the entry updates committed on \<open>store_orphan\<close>. The add transaction, on
  the same kind of input, throws.
\<close>

theorem recalculate_missing_party_silent:
  "partiesGet (parties store_empty) 2 = None \<and>
   recalculateBalancesForParty store_empty 2 50 = (store_empty, []) \<and>
   addEntry_transaction store_empty 2 20 credit ''C'' 2 30 31 = Inl PartyNotFound \<and>
   partiesGet (parties store_orphan) 1 = None \<and>
   recalculateBalancesForParty store_orphan 1 50 =
     (store_orphan\<lparr>entries := [entry_A 100, entry_B 70]\<rparr>,
      [EntriesUpdate 1 100, EntriesUpdate 2 70])"
  by (simp add: recalculateBalancesForParty_def addEntry_transaction_def
      store_empty_def store_orphan_def where_partyId_def entry_A_def entry_B_def
      sortBy_date_def js_sort_def compare_entries_def js_or_def Promise_all_def
      entriesUpdate_def partiesGet_def party_P_def)



text \<open>
  Claim C5, as stated, fails twice. On a party without entries the second of two
  recalculations in a row writes the party row again (balance \<open>0\<close>, a new
  \<open>updatedAt\<close>), through the branch of lines 46 to 48. On a party with a credit
  and a later debit of \<^verbatim>\<open>Infinity\<close> (an amount the guard of the form lets through) the
  running balance of the second entry is \<^verbatim>\<open>NaN\<close>, which \<^verbatim>\<open>!==\<close> tells apart from
  itself: the second recalculation writes that entry and the party row again.
\<close>

theorem second_recalculation_writes_empty_party:
  "where_partyId (entries store_empty) 1 = [] \<and>
   snd (recalculateBalancesForParty
          (fst (recalculateBalancesForParty store_empty 1 50)) 1 60) = [PartiesUpdate 1 0 60] \<and>
   map updatedAt (parties (fst (recalculateBalancesForParty store_empty 1 50))) = [50] \<and>
   map updatedAt (parties (fst (recalculateBalancesForParty
          (fst (recalculateBalancesForParty store_empty 1 50)) 1 60))) = [60] \<and>
   \<not> (strict_ne PosInfinity PosInfinity \<or> PosInfinity \<le> (0::double)) \<and>
   snd (recalculateBalancesForParty store_infinite 1 50) =
     [EntriesUpdate 1 PosInfinity, EntriesUpdate 2 NaN, PartiesUpdate 1 NaN 50] \<and>
   snd (recalculateBalancesForParty
          (fst (recalculateBalancesForParty store_infinite 1 50)) 1 60) =
     [EntriesUpdate 2 NaN, PartiesUpdate 1 NaN 60]"
proof -
  have "where_partyId (entries store_empty) 1 = [] \<and>
    snd (recalculateBalancesForParty
          (fst (recalculateBalancesForParty store_empty 1 50)) 1 60) = [PartiesUpdate 1 0 60] \<and>
    map updatedAt (parties (fst (recalculateBalancesForParty store_empty 1 50))) = [50] \<and>
    map updatedAt (parties (fst (recalculateBalancesForParty
          (fst (recalculateBalancesForParty store_empty 1 50)) 1 60))) = [60]"
    by (simp add: recalculateBalancesForParty_def store_empty_def where_partyId_def
        sortBy_date_def js_sort_def Promise_all_def partiesGet_def party_P_def
        partiesUpdate_def)
  then show ?thesis
    using store_infinite_values by blast
qed

text \<open>
  Claim C5, amended. Over numbers that \<^verbatim>\<open>!==\<close> tells apart exactly when they differ
  (no \<^verbatim>\<open>NaN\<close>), for every set of entries of a party, ties in (date, createdAt)
  included, a second recalculation right after a first one yields the same
  chronological order and the same \<open>balanceAfter\<close> values (the entries table is
  unchanged), issues no entry write and leaves the stored balance as it is; when
  the party has at least one entry it issues no write at all and the store is
  unchanged; when the party has a row and no entry it issues one write, of the
  party row, with balance \<open>0\<close> and the new \<open>updatedAt\<close>.
\<close>

theorem recalculation_idempotent:
  fixes db :: "'n::{zero,plus,uminus,order} AppDB"
  assumes "wf_db db"
  shows "ledger (fst (recalculateBalancesForParty
                   (fst (recalculateBalancesForParty db pid t1)) pid t2)) pid =
           ledger (fst (recalculateBalancesForParty db pid t1)) pid \<and>
         entries (fst (recalculateBalancesForParty
                   (fst (recalculateBalancesForParty db pid t1)) pid t2)) =
           entries (fst (recalculateBalancesForParty db pid t1)) \<and>
         entry_writes (snd (recalculateBalancesForParty
                   (fst (recalculateBalancesForParty db pid t1)) pid t2)) = [] \<and>
         stored_balance (fst (recalculateBalancesForParty
                   (fst (recalculateBalancesForParty db pid t1)) pid t2)) pid =
           stored_balance (fst (recalculateBalancesForParty db pid t1)) pid \<and>
         (where_partyId (entries db) pid \<noteq> [] \<longrightarrow>
            recalculateBalancesForParty (fst (recalculateBalancesForParty db pid t1)) pid t2 =
              (fst (recalculateBalancesForParty db pid t1), [])) \<and>
         (where_partyId (entries db) pid = [] \<and> partiesGet (parties db) pid \<noteq> None \<longrightarrow>
            recalculateBalancesForParty (fst (recalculateBalancesForParty db pid t1)) pid t2 =
              (exec (PartiesUpdate pid 0 t2) (fst (recalculateBalancesForParty db pid t1)),
               [PartiesUpdate pid 0 t2]))"
proof -
  define db1 where "db1 = fst (recalculateBalancesForParty db pid t1)"
  note second = recalculate_after_recalculate [OF assms db1_def, of t2]
  show ?thesis
  proof (cases "ledger db pid = [] \<and> partiesGet (parties db) pid \<noteq> None")
    case True
    then obtain p where p: "partiesGet (parties db) pid = Some p" by auto
    have run: "recalculateBalancesForParty db1 pid t2 =
                 (exec (PartiesUpdate pid 0 t2) db1, [PartiesUpdate pid 0 t2])"
      unfolding second using True by simp
    have "stored_balance db1 pid = Some (sum_signed (ledger db pid))"
      unfolding db1_def by (rule stored_balance_recalculate [OF p])
    then have b1: "stored_balance db1 pid = Some 0"
      using True by (simp add: sum_signed_def)
    then obtain p' where "partiesGet (parties db1) pid = Some p'"
      by (auto simp: stored_balance_def)
    then have b2: "stored_balance (exec (PartiesUpdate pid 0 t2) db1) pid = Some 0"
      by (rule stored_balance_update)
    have "ledger (exec (PartiesUpdate pid 0 t2) db1) pid = ledger db1 pid"
      by (simp add: ledger_def)
    then show ?thesis
      unfolding db1_def [symmetric] run using True b1 b2 by (simp add: ledger_Nil_iff)
  next
    case False
    have run: "recalculateBalancesForParty db1 pid t2 = (db1, [])"
      unfolding second using False by simp
    show ?thesis
      unfolding db1_def [symmetric] run using False by (simp add: ledger_Nil_iff)
  qed
qed

theorem recalculation_idempotent_witness:
  "wf_db store_ties \<and> where_partyId (entries store_ties) 1 \<noteq> [] \<and>
   ledger (fst (recalculateBalancesForParty
             (fst (recalculateBalancesForParty store_ties 1 50)) 1 60)) 1 =
     ledger (fst (recalculateBalancesForParty store_ties 1 50)) 1 \<and>
   entries (fst (recalculateBalancesForParty
             (fst (recalculateBalancesForParty store_ties 1 50)) 1 60)) =
     entries (fst (recalculateBalancesForParty store_ties 1 50)) \<and>
   entry_writes (snd (recalculateBalancesForParty
             (fst (recalculateBalancesForParty store_ties 1 50)) 1 60)) = [] \<and>
   stored_balance (fst (recalculateBalancesForParty
             (fst (recalculateBalancesForParty store_ties 1 50)) 1 60)) 1 =
     stored_balance (fst (recalculateBalancesForParty store_ties 1 50)) 1 \<and>
   recalculateBalancesForParty (fst (recalculateBalancesForParty store_ties 1 50)) 1 60 =
     (fst (recalculateBalancesForParty store_ties 1 50), []) \<and>
   wf_db store_empty \<and> where_partyId (entries store_empty) 1 = [] \<and>
   partiesGet (parties store_empty) 1 \<noteq> None \<and>
   recalculateBalancesForParty (fst (recalculateBalancesForParty store_empty 1 50)) 1 60 =
     (exec (PartiesUpdate 1 0 60) (fst (recalculateBalancesForParty store_empty 1 50)),
      [PartiesUpdate 1 0 60])"
proof -
  have wf: "wf_db store_ties"
    by (simp add: wf_db_def store_ties_def)
  have ne: "where_partyId (entries store_ties) 1 \<noteq> []"
    by (simp add: where_partyId_def store_ties_def)
  have wf2: "wf_db store_empty"
    by (simp add: wf_db_def store_empty_def)
  have e2: "where_partyId (entries store_empty) 1 = []"
    by (simp add: where_partyId_def store_empty_def)
  have p2: "partiesGet (parties store_empty) 1 \<noteq> None"
    by (simp add: partiesGet_def store_empty_def party_P_def)
  have ties: "ledger (fst (recalculateBalancesForParty
             (fst (recalculateBalancesForParty store_ties 1 50)) 1 60)) 1 =
        ledger (fst (recalculateBalancesForParty store_ties 1 50)) 1 \<and>
      entries (fst (recalculateBalancesForParty
             (fst (recalculateBalancesForParty store_ties 1 50)) 1 60)) =
        entries (fst (recalculateBalancesForParty store_ties 1 50)) \<and>
      entry_writes (snd (recalculateBalancesForParty
             (fst (recalculateBalancesForParty store_ties 1 50)) 1 60)) = [] \<and>
      stored_balance (fst (recalculateBalancesForParty
             (fst (recalculateBalancesForParty store_ties 1 50)) 1 60)) 1 =
        stored_balance (fst (recalculateBalancesForParty store_ties 1 50)) 1 \<and>
      recalculateBalancesForParty (fst (recalculateBalancesForParty store_ties 1 50)) 1 60 =
        (fst (recalculateBalancesForParty store_ties 1 50), [])"
    using ne recalculation_idempotent [OF wf, of 1 50 60] by simp
  have empty: "recalculateBalancesForParty
        (fst (recalculateBalancesForParty store_empty 1 50)) 1 60 =
     (exec (PartiesUpdate 1 0 60) (fst (recalculateBalancesForParty store_empty 1 50)),
      [PartiesUpdate 1 0 60])"
    using e2 p2 recalculation_idempotent [OF wf2, of 1 50 60] by blast
  show ?thesis
    using wf ne ties wf2 e2 p2 empty by blast
qed






text \<open>
  Claim C8. Recalculating a party that has no entries sets its stored balance to
  exactly \<open>0\<close>, whatever it was; and deleting the last remaining entry of a party
  through \<open>handleConfirmDelete\<close> leaves the party with balance \<open>0\<close> and without any
  entry, so without any stale \<open>balanceAfter\<close>.
\<close>

theorem zero_entries_balance_zero:
  assumes "partiesGet (parties db) pid = Some p"
  shows "(where_partyId (entries db) pid = [] \<longrightarrow>
            stored_balance (fst (recalculateBalancesForParty db pid now)) pid = Some 0) \<and>
         (where_partyId (entries db) pid = [e] \<and> entry_id e = eid \<longrightarrow>
            stored_balance (fst (handleConfirmDelete db (Some (DeleteEntry pid eid)) now)) pid
              = Some 0 \<and>
            where_partyId (entries (fst (handleConfirmDelete db (Some (DeleteEntry pid eid)) now)))
              pid = [])"
proof (intro conjI impI)
  assume "where_partyId (entries db) pid = []"
  then have "ledger db pid = []" by (simp add: ledger_Nil_iff)
  then have "recalculateBalancesForParty db pid now =
               (exec (PartiesUpdate pid 0 now) db, [PartiesUpdate pid 0 now])"
    using assms by (rule recalculate_empty)
  then show "stored_balance (fst (recalculateBalancesForParty db pid now)) pid = Some 0"
    using stored_balance_update [OF assms, of 0 now] by (simp only: fst_conv)
next
  assume last: "where_partyId (entries db) pid = [e] \<and> entry_id e = eid"
  let ?db1 = "exec (EntriesDelete eid) db"
  have "where_partyId (entries ?db1) pid =
        filter (\<lambda>r. entry_id r \<noteq> eid) (where_partyId (entries db) pid)"
    by (simp add: where_partyId_def conj_commute)
  then have none: "where_partyId (entries ?db1) pid = []"
    using last by simp
  then have nil: "ledger ?db1 pid = []" by (simp add: ledger_Nil_iff)
  have party: "partiesGet (parties ?db1) pid = Some p" using assms by simp
  have run: "handleConfirmDelete db (Some (DeleteEntry pid eid)) now =
             (exec (PartiesUpdate pid 0 now) ?db1, [EntriesDelete eid, PartiesUpdate pid 0 now])"
    unfolding handleConfirmDelete_def option.case confirmation.case
      recalculate_empty [OF nil party] Let_def prod.case ..
  show "stored_balance (fst (handleConfirmDelete db (Some (DeleteEntry pid eid)) now)) pid
              = Some 0"
    unfolding run fst_conv using party by (rule stored_balance_update)
  show "where_partyId (entries (fst (handleConfirmDelete db (Some (DeleteEntry pid eid)) now)))
              pid = []"
    unfolding run fst_conv using none by simp
qed

theorem zero_entries_balance_zero_witness:
  "partiesGet (parties (store_empty\<lparr>parties := [party_P 42]\<rparr>)) 1 = Some (party_P 42) \<and>
   where_partyId (entries (store_empty\<lparr>parties := [party_P 42]\<rparr>)) 1 = [] \<and>
   stored_balance (fst (recalculateBalancesForParty
       (store_empty\<lparr>parties := [party_P 42]\<rparr>) 1 50)) 1 = Some 0 \<and>
   partiesGet (parties store_A) 1 = Some (party_P 100) \<and>
   where_partyId (entries store_A) 1 = [entry_A 100] \<and> entry_id (entry_A 100) = 1 \<and>
   stored_balance (fst (handleConfirmDelete store_A (Some (DeleteEntry 1 1)) 50)) 1 = Some 0 \<and>
   where_partyId (entries (fst (handleConfirmDelete store_A (Some (DeleteEntry 1 1)) 50))) 1 = []"
proof -
  have p1: "partiesGet (parties (store_empty\<lparr>parties := [party_P 42]\<rparr>)) 1 = Some (party_P 42)"
    by (simp add: partiesGet_def store_empty_def party_P_def)
  have e1: "where_partyId (entries (store_empty\<lparr>parties := [party_P 42]\<rparr>)) 1 = []"
    by (simp add: where_partyId_def store_empty_def)
  have p2: "partiesGet (parties store_A) 1 = Some (party_P 100)"
    by (simp add: partiesGet_def store_A_def party_P_def)
  have e2: "where_partyId (entries store_A) 1 = [entry_A 100] \<and> entry_id (entry_A 100) = 1"
    by (simp add: where_partyId_def store_A_def entry_A_def)
  show ?thesis
    using p1 e1 p2 e2
      zero_entries_balance_zero [OF p1, of 50 "entry_A 100" 1]
      zero_entries_balance_zero [OF p2, of 50 "entry_A 100" 1]
    by simp
qed




text \<open>
  Claim C10. An accepted edit through \<open>handleSubmit\<close> (the amount is not \<^verbatim>\<open>NaN\<close> and
  not \<^verbatim>\<open><= 0\<close>, the party is loaded) sets the amount, direction,
  note and date of the entry with the given id and of no other entry, and leaves
  the id, partyId and createdAt of every entry as they were (\<open>balanceAfter\<close> is
  recomputed by the recalculation that follows). So after any sequence of edits
  the table holds the same ids, partyIds and creation times in the same order, and
  two entries that share a date are ranked by the comparator of the code exactly
  by the creation times they had before the edits.
\<close>

theorem edit_preserves_identity_and_rank:
  fixes db :: "'n::{zero,plus,uminus,ord} AppDB"
  shows "(\<not> (strict_ne a a \<or> a \<le> 0) \<and> party \<noteq> None \<longrightarrow>
            (\<exists>db' ops. handleSubmit db party pid (Some (Suc k)) a d n t nc nu = Inr (db', ops) \<and>
               map identity_fields (entries db') = map identity_fields (entries db) \<and>
               map edited_fields (entries db') =
                 map (\<lambda>e. if entry_id e = Suc k then (a, d, Some n, t) else edited_fields e)
                   (entries db))) \<and>
         map identity_fields (entries (apply_edits db rs)) = map identity_fields (entries db) \<and>
         (\<forall>i j. i < length (entries db) \<and> j < length (entries db) \<and>
              date (entries (apply_edits db rs) ! i) = date (entries (apply_edits db rs) ! j) \<longrightarrow>
              compare_entries (entries (apply_edits db rs) ! i) (entries (apply_edits db rs) ! j) =
                createdAt (entries db ! i) - createdAt (entries db ! j))"
proof (intro conjI impI allI)
  assume "\<not> (strict_ne a a \<or> a \<le> 0) \<and> party \<noteq> None"
  then show "\<exists>db' ops. handleSubmit db party pid (Some (Suc k)) a d n t nc nu = Inr (db', ops) \<and>
               map identity_fields (entries db') = map identity_fields (entries db) \<and>
               map edited_fields (entries db') =
                 map (\<lambda>e. if entry_id e = Suc k then (a, d, Some n, t) else edited_fields e)
                   (entries db)"
    using entry_edit_fields [of a party db pid k d n t nc nu] by blast
next
  show ids: "map identity_fields (entries (apply_edits db rs)) = map identity_fields (entries db)"
    by (rule identity_fields_apply_edits)
  fix i j
  assume h: "i < length (entries db) \<and> j < length (entries db) \<and>
     date (entries (apply_edits db rs) ! i) = date (entries (apply_edits db rs) ! j)"
  have len: "length (entries (apply_edits db rs)) = length (entries db)"
    using ids by (metis length_map)
  have same: "identity_fields (entries (apply_edits db rs) ! m) = identity_fields (entries db ! m)"
    if "m < length (entries db)" for m
    using that len ids by (metis nth_map)
  have "createdAt (entries (apply_edits db rs) ! i) = createdAt (entries db ! i)"
    using same [of i] h by (simp add: identity_fields_def)
  moreover have "createdAt (entries (apply_edits db rs) ! j) = createdAt (entries db ! j)"
    using same [of j] h by (simp add: identity_fields_def)
  ultimately show "compare_entries (entries (apply_edits db rs) ! i) (entries (apply_edits db rs) ! j) =
      createdAt (entries db ! i) - createdAt (entries db ! j)"
    using h by (simp add: compare_entries_same_date)
qed

theorem edit_preserves_identity_and_rank_witness:
  "\<not> (strict_ne (30::int) 30 \<or> (30::int) \<le> 0) \<and> Some (party_P 70) \<noteq> None \<and>
   (\<exists>db' ops. handleSubmit store_AB (Some (party_P 70)) 1 (Some (Suc 1)) 30 debit ''x'' 1 50 50
        = Inr (db', ops) \<and>
      map identity_fields (entries db') = map identity_fields (entries store_AB) \<and>
      map edited_fields (entries db') =
        map (\<lambda>e. if entry_id e = Suc 1 then (30, debit, Some ''x'', 1) else edited_fields e)
          (entries store_AB)) \<and>
   map identity_fields (entries (apply_edits store_AB [Edit (Some (party_P 70)) 1 1 30 debit ''x'' 1 50]))
     = map identity_fields (entries store_AB) \<and>
   (0::nat) < length (entries store_AB) \<and> (1::nat) < length (entries store_AB) \<and>
   date (entries (apply_edits store_AB [Edit (Some (party_P 70)) 1 1 30 debit ''x'' 1 50]) ! 0) =
     date (entries (apply_edits store_AB [Edit (Some (party_P 70)) 1 1 30 debit ''x'' 1 50]) ! 1) \<and>
   compare_entries
     (entries (apply_edits store_AB [Edit (Some (party_P 70)) 1 1 30 debit ''x'' 1 50]) ! 0)
     (entries (apply_edits store_AB [Edit (Some (party_P 70)) 1 1 30 debit ''x'' 1 50]) ! 1) =
     createdAt (entries store_AB ! 0) - createdAt (entries store_AB ! 1)"
proof -
  let ?rs = "[Edit (Some (party_P 70)) 1 1 30 debit ''x'' 1 50] :: int edit list"
  note inst = edit_preserves_identity_and_rank
    [of 30 "Some (party_P 70)" store_AB 1 1 debit "''x''" 1 50 50 ?rs]
  have v: "\<not> (strict_ne (30::int) 30 \<or> (30::int) \<le> 0) \<and> Some (party_P 70) \<noteq> None"
    by simp
  have l: "(0::nat) < length (entries store_AB) \<and> (1::nat) < length (entries store_AB)"
    by (simp add: store_AB_def)
  have dt: "date (entries (apply_edits store_AB ?rs) ! 0) =
            date (entries (apply_edits store_AB ?rs) ! 1)"
    unfolding store_AB_edit_values by (simp add: entry_A_def entry_B_def)
  show ?thesis
    using v l dt inst by blast
qed

end
